theory Spec2Isabelle
  imports Main
begin

section \<open>Regular expressions as the installer uses them\<close>

text \<open>
  \<^verbatim>\<open>ptinstaller.py\<close> matches text with four patterns of Python's \<^verbatim>\<open>re\<close> module.
  They are built from single characters, character classes, the greedy
  repetitions \<^verbatim>\<open>*\<close>, \<^verbatim>\<open>+\<close> and \<^verbatim>\<open>?\<close> of a single character or class, capture groups
  and the anchor \<^verbatim>\<open>^\<close>. The matcher below is a backtracking matcher for exactly
  this fragment: it returns every way a pattern can match at the current
  position, in the order in which Python's matcher tries them, so the head of
  the list is the match Python reports.
\<close>

datatype cset =
    Chr char          \<comment> \<open>a literal character\<close>
  | AnyChar           \<comment> \<open>\<^verbatim>\<open>.\<close>: any character but the newline\<close>
  | In string         \<comment> \<open>\<^verbatim>\<open>[...]\<close>, the members written out\<close>
  | NotIn string      \<comment> \<open>\<^verbatim>\<open>[^...]\<close>; it accepts the newline too\<close>

datatype re =
    Eps
  | One cset
  | Star cset         \<comment> \<open>\<^verbatim>\<open>x*\<close>, greedy\<close>
  | Plus cset         \<comment> \<open>\<^verbatim>\<open>x+\<close>, greedy\<close>
  | Opt cset          \<comment> \<open>\<^verbatim>\<open>x?\<close>, greedy\<close>
  | Seq re re
  | Group nat re      \<comment> \<open>the capture group with this number\<close>
  | Bol               \<comment> \<open>\<^verbatim>\<open>^\<close> without \<^verbatim>\<open>re.MULTILINE\<close>\<close>
  | BolM              \<comment> \<open>\<^verbatim>\<open>^\<close> with \<^verbatim>\<open>re.MULTILINE\<close>\<close>

definition NL :: char where
  "NL = CHR 0x0A"

fun accepts :: "cset \<Rightarrow> char \<Rightarrow> bool" where
  "accepts (Chr c) x = (x = c)"
| "accepts AnyChar x = (x \<noteq> NL)"
| "accepts (In cs) x = (x \<in> set cs)"
| "accepts (NotIn cs) x = (x \<notin> set cs)"

text \<open>
  A matcher state: the character before the current position (\<open>None\<close> at the
  start of the text), the text still to be read, and the groups captured so
  far, the latest first.
\<close>

type_synonym mstate = "char option \<times> string \<times> (nat \<times> string) list"

fun one :: "cset \<Rightarrow> mstate \<Rightarrow> mstate list" where
  "one cs (p, [], g) = []"
| "one cs (p, x # xs, g) = (if accepts cs x then [(Some x, xs, g)] else [])"

text \<open>Greedy repetition: the longest run first, then each shorter one.\<close>

fun many :: "cset \<Rightarrow> mstate \<Rightarrow> mstate list" where
  "many cs (p, [], g) = [(p, [], g)]"
| "many cs (p, x # xs, g) =
     (if accepts cs x then many cs (Some x, xs, g) @ [(p, x # xs, g)]
      else [(p, x # xs, g)])"

fun capture :: "nat \<Rightarrow> string \<Rightarrow> mstate \<Rightarrow> mstate" where
  "capture n s (p', s', g') = (p', s', (n, take (length s - length s') s) # g')"

fun run :: "re \<Rightarrow> mstate \<Rightarrow> mstate list" where
  "run Eps st = [st]"
| "run (One cs) st = one cs st"
| "run (Star cs) st = many cs st"
| "run (Plus cs) st = concat (map (many cs) (one cs st))"
| "run (Opt cs) st = one cs st @ [st]"
| "run (Seq a b) st = concat (map (run b) (run a st))"
| "run (Group n a) (p, s, g) = map (capture n s) (run a (p, s, g))"
| "run Bol (p, s, g) = (if p = None then [(p, s, g)] else [])"
| "run BolM (p, s, g) = (if p = None \<or> p = Some NL then [(p, s, g)] else [])"

fun seqs :: "re list \<Rightarrow> re" where
  "seqs [] = Eps"
| "seqs (r # rs) = Seq r (seqs rs)"

definition lit :: "string \<Rightarrow> re" where
  "lit s = seqs (map (\<lambda>c. One (Chr c)) s)"

text \<open>\<^verbatim>\<open>re.match\<close>: the pattern is tried at the start of the text only.\<close>

definition re_match :: "re \<Rightarrow> string \<Rightarrow> (nat \<times> string) list option" where
  "re_match r s = (case run r (None, s, []) of [] \<Rightarrow> None | (p, s', g) # _ \<Rightarrow> Some g)"

text \<open>
  \<^verbatim>\<open>m.group(n)\<close> is \<open>None\<close> for a group that took no part in the match;
  \<^verbatim>\<open>findall\<close> reports such a group as the empty string.
\<close>

definition group :: "(nat \<times> string) list \<Rightarrow> nat \<Rightarrow> string option" where
  "group g n = map_of g n"

definition group_str :: "(nat \<times> string) list \<Rightarrow> nat \<Rightarrow> string" where
  "group_str g n = (case map_of g n of None \<Rightarrow> [] | Some s \<Rightarrow> s)"

text \<open>
  \<^verbatim>\<open>findall\<close>: the leftmost match from the current position on, then the
  search goes on where that match ended. After an empty match the search moves
  one character on (no pattern of this program matches the empty string).
\<close>

fun search :: "re \<Rightarrow> char option \<Rightarrow> string \<Rightarrow> mstate option" where
  "search r p [] = (case run r (p, [], []) of [] \<Rightarrow> None | st # _ \<Rightarrow> Some st)"
| "search r p (x # xs) =
     (case run r (p, x # xs, []) of [] \<Rightarrow> search r (Some x) xs | st # _ \<Rightarrow> Some st)"

function findall_from :: "re \<Rightarrow> char option \<Rightarrow> string \<Rightarrow> (nat \<times> string) list list" where
  "findall_from r p s =
     (case search r p s of
        None \<Rightarrow> []
      | Some (p', s', g) \<Rightarrow>
          if length s' < length s then g # findall_from r p' s'
          else (case s of [] \<Rightarrow> [g] | x # xs \<Rightarrow> g # findall_from r (Some x) xs))"
  by pat_completeness auto
termination
  by (relation "measure (\<lambda>(r, p, s). length s)") auto

definition findall :: "re \<Rightarrow> string \<Rightarrow> (nat \<times> string) list list" where
  "findall r s = findall_from r None s"

section \<open>The patterns of the source\<close>

text \<open>
  \<^verbatim>\<open>PATTERN_NAME_URL_DESCRIPTION = re.compile(r'^\| +\[([^]]+)\] *\[([^]]*)\][^|]+\| (.*) \|', re.MULTILINE)\<close>
\<close>

definition PATTERN_NAME_URL_DESCRIPTION :: re where
  "PATTERN_NAME_URL_DESCRIPTION =
     seqs [BolM, lit ''|'', Plus (Chr CHR '' ''), lit ''['', Group 1 (Plus (NotIn '']'')),
           lit '']'', Star (Chr CHR '' ''), lit ''['', Group 2 (Star (NotIn '']'')), lit '']'',
           Plus (NotIn ''|''), lit ''| '', Group 3 (Star AnyChar), lit '' |'']"

text \<open>\<^verbatim>\<open>PATTERN_NAME_URL = re.compile(r'^\[([^]]+)\]: *(.*)', re.MULTILINE)\<close>\<close>

definition PATTERN_NAME_URL :: re where
  "PATTERN_NAME_URL =
     seqs [BolM, lit ''['', Group 1 (Plus (NotIn '']'')), lit '']:'', Star (Chr CHR '' ''),
           Group 2 (Star AnyChar)]"

text \<open>
  \<^verbatim>\<open>PATTERN_USER_REPO = r'^https?://github.com/(.+)/(.+)'\<close>
  (the dots of the host name are not escaped: each stands for any character).
\<close>

definition PATTERN_USER_REPO :: re where
  "PATTERN_USER_REPO =
     seqs [Bol, lit ''http'', Opt (Chr CHR ''s''), lit ''://github'', One AnyChar, lit ''com/'',
           Group 1 (Plus AnyChar), lit ''/'', Group 2 (Plus AnyChar)]"

text \<open>\<^verbatim>\<open>PATTERN_GIST_ID = r'http(s?)://gist.github.com/([0-9a-zA-Z]*)/([0-9a-f]*)'\<close>\<close>

definition alnum :: string where
  "alnum = ''0123456789abcdefghijklmnopqrstuvwxyzABCDEFGHIJKLMNOPQRSTUVWXYZ''"

definition hexdigit :: string where
  "hexdigit = ''0123456789abcdef''"

definition PATTERN_GIST_ID :: re where
  "PATTERN_GIST_ID =
     seqs [lit ''http'', Group 1 (Opt (Chr CHR ''s'')), lit ''://gist'', One AnyChar,
           lit ''github'', One AnyChar, lit ''com/'', Group 2 (Star (In alnum)), lit ''/'',
           Group 3 (Star (In hexdigit))]"

section \<open>Errors, the environment and the state\<close>

text \<open>
  The exceptions the modelled code can raise: the four classes the program
  declares, and the built-in ones of the Python operations it uses.
\<close>

datatype error =
    InvalidGistURLError | MultipleFilesInGistError | NoFilesInGistError | GistDownloadError
  | TypeError | ValueError | KeyError | AttributeError | IOError | OSError
  | RequestException | BadZipfile

text \<open>Decoded JSON; an object carries the items of the Python dict, each key once.\<close>

datatype json =
    JNull | JBool bool | JNum int | JStr string | JArr "json list" | JObj "(string \<times> json) list"

text \<open>
  What the program takes from outside: the installation root
  (\<^verbatim>\<open>os.path.expanduser('~/Documents/bin')\<close>), \<^verbatim>\<open>os.environ['TMPDIR']\<close> when it is
  set, the body served at a URL (\<open>None\<close> when \<^verbatim>\<open>requests.get\<close> raises), and the
  library functions \<^verbatim>\<open>json.loads\<close>, \<^verbatim>\<open>zipfile.ZipFile\<close> (the entries of an archive,
  name and data, in archive order) and \<^verbatim>\<open>urlparse.urljoin\<close>.
\<close>

record env =
  INSTALLATION_ROOT :: string
  TMPDIR :: "string option"
  http_get :: "string \<Rightarrow> string option"
  json_loads :: "string \<Rightarrow> json option"
  zip_open :: "string \<Rightarrow> (string \<times> string) list option"
  urljoin :: "string \<Rightarrow> string \<Rightarrow> string"

text \<open>A tool of a listing: the dict \<^verbatim>\<open>{'url': ..., 'description': ...}\<close>.\<close>

record tool_content =
  url :: string
  description :: string

type_synonym tools = "string \<rightharpoonup> tool_content"

text \<open>
  The file system is a tree of named nodes, addressed by the list of path
  components from its root; the root itself is always a directory. Relative
  paths are read from the root. The model has no \<^verbatim>\<open>.\<close> and \<^verbatim>\<open>..\<close> entries, no
  symbolic links and no permissions: a path with a component \<^verbatim>\<open>.\<close> or \<^verbatim>\<open>..\<close> is
  read as if that were an ordinary name, which is not what the operating system
  does with it.
\<close>

datatype node = Dir | File string

type_synonym filesystem = "string list \<rightharpoonup> node"

text \<open>
  The state the program changes: the file system, the log of HTTP requests
  sent, the parse cache of \<^verbatim>\<open>PythonistaToolsRepo\<close>, the URLs handed to the web
  browser, the alerts shown (message and icon) and the exceptions written to
  standard error.
\<close>

record world =
  fs :: filesystem
  requests :: "string list"
  cached_tools_dict :: "string \<rightharpoonup> tools"
  browser :: "string list"
  alerts :: "(string \<times> string) list"
  stderr :: "error list"

section \<open>The listing parser\<close>

text \<open>
  \<^verbatim>\<open>unicode.strip()\<close>: the characters up to code point 255 that Python 2 counts
  as white space.
\<close>

definition whitespace :: string where
  "whitespace = map char_of [9, 10, 11, 12, 13, 28, 29, 30, 31, 32, 133, 160 :: nat]"

definition strip :: "string \<Rightarrow> string" where
  "strip s = rev (dropWhile (\<lambda>c. c \<in> set whitespace) (rev (dropWhile (\<lambda>c. c \<in> set whitespace) s)))"

text \<open>
  The two loops of \<^verbatim>\<open>get_tools_from_md\<close> name their loop variable \<^verbatim>\<open>url\<close>, which
  is also the name of the function's parameter: every iteration rebinds it. The
  loop states below therefore carry the dict together with the current value
  of \<^verbatim>\<open>url\<close>.

  \<^verbatim>\<open>for name, url, description in self.PATTERN_NAME_URL_DESCRIPTION.findall(md):\<close>
  \<^verbatim>\<open>    tools_dict[name] = {'url': url, 'description': description.strip()}\<close>
\<close>

fun add_row :: "tools \<times> string \<Rightarrow> (nat \<times> string) list \<Rightarrow> tools \<times> string" where
  "add_row (tools_dict, u) g =
     (tools_dict(group_str g 1 \<mapsto> \<lparr>url = group_str g 2, description = strip (group_str g 3)\<rparr>),
      group_str g 2)"

text \<open>
  The body of the \<^verbatim>\<open>else\<close> branch for one tool:
  \<^verbatim>\<open>if tool_content['url'] == name: tool_content['url'] = url\<close>
  \<^verbatim>\<open>if tool_content['description'] == '[%s]' % name: tool_content['description'] = url\<close>
\<close>

definition substitute :: "string \<Rightarrow> string \<Rightarrow> tool_content \<Rightarrow> tool_content" where
  "substitute name u tc =
     (let tc1 = (if url tc = name then tc\<lparr>url := u\<rparr> else tc)
      in if description tc1 = ''['' @ name @ '']'' then tc1\<lparr>description := u\<rparr> else tc1)"

text \<open>
  \<^verbatim>\<open>for name, url in self.PATTERN_NAME_URL.findall(md):\<close>
  \<^verbatim>\<open>    if name in tools_dict: tools_dict[name]['url'] = url\<close>
  \<^verbatim>\<open>    else: for tool_name, tool_content in tools_dict.items(): ...\<close>
\<close>

definition resolve :: "tools \<Rightarrow> string \<Rightarrow> string \<Rightarrow> tools" where
  "resolve tools_dict name u =
     (case tools_dict name of
        Some tc \<Rightarrow> tools_dict(name \<mapsto> tc\<lparr>url := u\<rparr>)
      | None \<Rightarrow> (\<lambda>tool_name. map_option (substitute name u) (tools_dict tool_name)))"

fun add_definition :: "tools \<times> string \<Rightarrow> (nat \<times> string) list \<Rightarrow> tools \<times> string" where
  "add_definition (tools_dict, u) g =
     (resolve tools_dict (group_str g 1) (group_str g 2), group_str g 2)"

text \<open>\<^verbatim>\<open>{k: v for k, v in tools_dict.items() if v['url']}\<close>\<close>

definition with_url :: "tools \<Rightarrow> tools" where
  "with_url tools_dict =
     (\<lambda>k. case tools_dict k of None \<Rightarrow> None | Some v \<Rightarrow> if url v \<noteq> [] then Some v else None)"

text \<open>
  The part of \<^verbatim>\<open>get_tools_from_md\<close> after the download: the dict it returns and
  the value of \<^verbatim>\<open>url\<close> at the end, under which the dict is stored in the cache.
\<close>

definition parse_md :: "string \<Rightarrow> string \<Rightarrow> tools \<times> string" where
  "parse_md u md =
     (let st1 = foldl add_row (Map.empty, u) (findall PATTERN_NAME_URL_DESCRIPTION md);
          st2 = foldl add_definition st1 (findall PATTERN_NAME_URL md)
      in (with_url (fst st2), snd st2))"

definition get_tools_from_md :: "env \<Rightarrow> string \<Rightarrow> world \<Rightarrow> (error + tools) \<times> world" where
  "get_tools_from_md e u w =
     (case cached_tools_dict w u of
        Some cached \<Rightarrow> (Inr cached, w)
      | None \<Rightarrow>
          let w1 = w\<lparr>requests := requests w @ [u]\<rparr>
          in (case http_get e u of
                None \<Rightarrow> (Inl RequestException, w1)
              | Some md \<Rightarrow>
                  (case parse_md u md of
                     (result, key) \<Rightarrow>
                       (Inr result,
                        w1\<lparr>cached_tools_dict := (cached_tools_dict w1)(key \<mapsto> result)\<rparr>))))"

section \<open>The source classifier\<close>

text \<open>
  What \<^verbatim>\<open>get_github_user_repo\<close> can return. The source returns \<^verbatim>\<open>m.groups\<close>, the
  bound method of the match object, not the tuple \<^verbatim>\<open>m.groups()\<close>: \<open>BoundGroups\<close>
  is that method, with the groups it would return if it were called.
\<close>

datatype pyobj = PyNone | PyTuple "string list" | BoundGroups "string list"

definition get_github_user_repo :: "string \<Rightarrow> pyobj" where
  "get_github_user_repo u =
     (case re_match PATTERN_USER_REPO u of
        None \<Rightarrow> PyNone
      | Some g \<Rightarrow> BoundGroups [group_str g 1, group_str g 2])"

fun truthy :: "pyobj \<Rightarrow> bool" where
  "truthy PyNone = False"
| "truthy (PyTuple xs) = (xs \<noteq> [])"
| "truthy (BoundGroups xs) = True"

text \<open>\<^verbatim>\<open>user_name, repo_name = ...\<close>: only a sequence of two items unpacks.\<close>

fun unpack2 :: "pyobj \<Rightarrow> error + string \<times> string" where
  "unpack2 (PyTuple [a, b]) = Inr (a, b)"
| "unpack2 (PyTuple xs) = Inl ValueError"
| "unpack2 PyNone = Inl TypeError"
| "unpack2 (BoundGroups xs) = Inl TypeError"

definition get_gist_id :: "string \<Rightarrow> string option" where
  "get_gist_id u = (case re_match PATTERN_GIST_ID u of None \<Rightarrow> None | Some g \<Rightarrow> group g 3)"

section \<open>Paths and the file system\<close>

text \<open>\<^verbatim>\<open>s.split(c)\<close> for a one-character separator.\<close>

fun splitc :: "char \<Rightarrow> string \<Rightarrow> string list" where
  "splitc c [] = [[]]"
| "splitc c (x # xs) =
     (if x = c then [] # splitc c xs
      else (case splitc c xs of [] \<Rightarrow> [[x]] | y # ys \<Rightarrow> (x # y) # ys))"

definition components :: "string \<Rightarrow> string list" where
  "components s = filter (\<lambda>c. c \<noteq> []) (splitc CHR ''/'' s)"

definition endswith_slash :: "string \<Rightarrow> bool" where
  "endswith_slash s = (s \<noteq> [] \<and> last s = CHR ''/'')"

text \<open>\<^verbatim>\<open>os.path.join(a, b)\<close> of \<^verbatim>\<open>posixpath\<close>.\<close>

definition join :: "string \<Rightarrow> string \<Rightarrow> string" where
  "join a b =
     (if b \<noteq> [] \<and> hd b = CHR ''/'' then b
      else if a = [] \<or> last a = CHR ''/'' then a @ b
      else a @ ''/'' @ b)"

text \<open>\<^verbatim>\<open>os.path.basename(p)\<close>: what follows the last slash.\<close>

definition basename :: "string \<Rightarrow> string" where
  "basename p = last (splitc CHR ''/'' p)"

text \<open>
  \<^verbatim>\<open>os.path.splitext(p)\<close>: the extension starts at the last dot of the last
  component, unless only dots stand before it there.
\<close>

definition splitext :: "string \<Rightarrow> string \<times> string" where
  "splitext p =
     (let b = basename p;
          ext = rev (takeWhile (\<lambda>c. c \<noteq> CHR ''.'') (rev b));
          stem = take (length b - length ext - 1) b
      in if CHR ''.'' \<in> set b \<and> (\<exists>c \<in> set stem. c \<noteq> CHR ''.'')
         then (take (length p - length ext - 1) p, CHR ''.'' # ext)
         else (p, []))"

text \<open>\<^verbatim>\<open>name.split(sep, 1)[-1]\<close>: what follows the first occurrence of \<open>sep\<close>, or all of \<open>name\<close>.\<close>

fun find_sub :: "string \<Rightarrow> string \<Rightarrow> nat option" where
  "find_sub sep [] = (if sep = [] then Some 0 else None)"
| "find_sub sep (x # xs) =
     (if take (length sep) (x # xs) = sep then Some 0 else map_option Suc (find_sub sep xs))"

definition split_last :: "string \<Rightarrow> string \<Rightarrow> string" where
  "split_last sep name =
     (case find_sub sep name of None \<Rightarrow> name | Some i \<Rightarrow> drop (i + length sep) name)"

definition node_at :: "filesystem \<Rightarrow> string list \<Rightarrow> node option" where
  "node_at f p = (if p = [] then Some Dir else f p)"

text \<open>
  \<^verbatim>\<open>os.path.exists\<close>: the empty path names nothing, and a path that ends in a
  slash names a directory only.
\<close>

definition path_exists :: "filesystem \<Rightarrow> string \<Rightarrow> bool" where
  "path_exists f s =
     (s \<noteq> [] \<and>
      (case node_at f (components s) of
         None \<Rightarrow> False
       | Some Dir \<Rightarrow> True
       | Some (File d) \<Rightarrow> \<not> endswith_slash s))"

fun is_file :: "node option \<Rightarrow> bool" where
  "is_file (Some (File d)) = True"
| "is_file n = False"

text \<open>
  \<^verbatim>\<open>os.makedirs\<close>: the directory and every missing ancestor are created; it
  raises when the path exists already or runs through a regular file.
\<close>

definition makedirs :: "filesystem \<Rightarrow> string \<Rightarrow> error + filesystem" where
  "makedirs f s =
     (let p = components s
      in if s = [] \<or> node_at f p \<noteq> None then Inl OSError
         else if list_ex (\<lambda>n. is_file (node_at f (take n p))) [0..<length p] then Inl OSError
         else Inr (\<lambda>q. if q \<noteq> [] \<and> take (length q) p = q \<and> f q = None then Some Dir else f q))"

text \<open>
  \<^verbatim>\<open>open(fname, 'wb')\<close>, \<^verbatim>\<open>write(data)\<close>, \<^verbatim>\<open>close()\<close>: the parent directory must
  exist; the file is created or overwritten. Parent directories are not
  created.
\<close>

definition write_file :: "filesystem \<Rightarrow> string \<Rightarrow> string \<Rightarrow> error + filesystem" where
  "write_file f s d =
     (let p = components s
      in if p = [] \<or> endswith_slash s then Inl IOError
         else if node_at f (butlast p) \<noteq> Some Dir then Inl IOError
         else if node_at f p = Some Dir then Inl IOError
         else Inr (f(p \<mapsto> File d)))"

definition read_file :: "filesystem \<Rightarrow> string \<Rightarrow> error + string" where
  "read_file f s =
     (case node_at f (components s) of
        Some (File d) \<Rightarrow> if endswith_slash s then Inl IOError else Inr d
      | _ \<Rightarrow> Inl IOError)"

text \<open>
  \<^verbatim>\<open>shutil.rmtree\<close>: a directory goes with all it contains. It raises on a path
  that is missing or is a regular file, and on the root, which it empties but
  cannot remove.
\<close>

definition rmtree :: "filesystem \<Rightarrow> string \<Rightarrow> (error + unit) \<times> filesystem" where
  "rmtree f s =
     (let p = components s
      in if s = [] then (Inl OSError, f)
         else (case node_at f p of
                 None \<Rightarrow> (Inl OSError, f)
               | Some (File d) \<Rightarrow> (Inl OSError, f)
               | Some Dir \<Rightarrow>
                   if p = [] then (Inl OSError, Map.empty)
                   else (Inr (), (\<lambda>q. if take (length p) q = p then None else f q))))"

section \<open>The repository archive installer\<close>

text \<open>
  \<^verbatim>\<open>GitHubRepoInstaller.download\<close>. The first statement unpacks the result of
  \<^verbatim>\<open>get_github_user_repo\<close> into two names.
\<close>

definition GitHubRepoInstaller_download :: "env \<Rightarrow> string \<Rightarrow> world \<Rightarrow> (error + string) \<times> world" where
  "GitHubRepoInstaller_download e u w =
     (case unpack2 (get_github_user_repo u) of
        Inl err \<Rightarrow> (Inl err, w)
      | Inr (user_name, repo_name) \<Rightarrow>
          let zipfile_url = urljoin e u (user_name @ ''/'' @ repo_name @ ''/archive/master.zip'')
          in (case TMPDIR e of
                None \<Rightarrow> (Inl KeyError, w)
              | Some tmp \<Rightarrow>
                  let tmp_zipfile = join tmp (repo_name @ ''-master.zip'');
                      w1 = w\<lparr>requests := requests w @ [zipfile_url]\<rparr>
                  in (case http_get e zipfile_url of
                        None \<Rightarrow> (Inl RequestException, w1)
                      | Some content \<Rightarrow>
                          (case write_file (fs w1) tmp_zipfile content of
                             Inl err \<Rightarrow> (Inl err, w1)
                           | Inr f \<Rightarrow> (Inr tmp_zipfile, w1\<lparr>fs := f\<rparr>)))))"

text \<open>\<^verbatim>\<open>zipfp.read(name)\<close>: the data of the last entry of that name.\<close>

definition zip_read :: "(string \<times> string) list \<Rightarrow> string \<Rightarrow> string option" where
  "zip_read z name = map_of (rev z) name"

text \<open>
  The loop of \<^verbatim>\<open>GitHubRepoInstaller.install\<close> over \<^verbatim>\<open>zipfp.namelist()\<close>: the
  extraction step. It stops at the first entry that raises and leaves what it
  has written so far.
\<close>

fun extract_entries :: "string \<Rightarrow> string \<Rightarrow> (string \<times> string) list \<Rightarrow> string list \<Rightarrow> filesystem
    \<Rightarrow> (error + unit) \<times> filesystem" where
  "extract_entries base_dir target_folder z [] f = (Inr (), f)"
| "extract_entries base_dir target_folder z (name # names) f =
     (case zip_read z name of
        None \<Rightarrow> (Inl KeyError, f)
      | Some d \<Rightarrow>
          let name' = split_last base_dir name
          in if name' = [] then extract_entries base_dir target_folder z names f
             else
               let fname = join target_folder name'
               in if endswith_slash fname then
                    (if \<not> path_exists f fname then
                       (case makedirs f fname of
                          Inl err \<Rightarrow> (Inl err, f)
                        | Inr f' \<Rightarrow> extract_entries base_dir target_folder z names f')
                     else extract_entries base_dir target_folder z names f)
                  else
                    (case write_file f fname d of
                       Inl err \<Rightarrow> (Inl err, f)
                     | Inr f' \<Rightarrow> extract_entries base_dir target_folder z names f'))"

text \<open>\<^verbatim>\<open>base_dir = os.path.splitext(os.path.basename(tmp_zipfile))[0] + '/'\<close>\<close>

definition base_dir_of :: "string \<Rightarrow> string" where
  "base_dir_of tmp_zipfile = fst (splitext (basename tmp_zipfile)) @ ''/''"

definition GitHubRepoInstaller_install :: "env \<Rightarrow> string \<Rightarrow> string \<Rightarrow> world \<Rightarrow> (error + unit) \<times> world" where
  "GitHubRepoInstaller_install e u target_folder w =
     (case GitHubRepoInstaller_download e u w of
        (Inl err, w1) \<Rightarrow> (Inl err, w1)
      | (Inr tmp_zipfile, w1) \<Rightarrow>
          if tmp_zipfile = [] then (Inr (), w1)
          else
            (case read_file (fs w1) tmp_zipfile of
               Inl err \<Rightarrow> (Inl err, w1)
             | Inr bytes \<Rightarrow>
                 (case zip_open e bytes of
                    None \<Rightarrow> (Inl BadZipfile, w1)
                  | Some z \<Rightarrow>
                      (case extract_entries (base_dir_of tmp_zipfile) target_folder z (map fst z) (fs w1) of
                         (r, f) \<Rightarrow> (r, w1\<lparr>fs := f\<rparr>)))))"

section \<open>The gist installer\<close>

text \<open>\<^verbatim>\<open>obj[key]\<close> on decoded JSON, for a string key.\<close>

fun getitem :: "json \<Rightarrow> string \<Rightarrow> error + json" where
  "getitem (JObj kvs) k = (case map_of kvs k of None \<Rightarrow> Inl KeyError | Some v \<Rightarrow> Inr v)"
| "getitem j k = Inl TypeError"

text \<open>\<^verbatim>\<open>files.values()\<close>: only a dict has the method.\<close>

fun dict_values :: "json \<Rightarrow> error + json list" where
  "dict_values (JObj kvs) = Inr (map snd kvs)"
| "dict_values j = Inl AttributeError"

text \<open>\<^verbatim>\<open>file_info.get('language', None)\<close>\<close>

fun get_language :: "json \<Rightarrow> error + json" where
  "get_language (JObj kvs) = (case map_of kvs ''language'' of None \<Rightarrow> Inr JNull | Some l \<Rightarrow> Inr l)"
| "get_language j = Inl AttributeError"

text \<open>
  \<^verbatim>\<open>for file_info in files.values():\<close>
  \<^verbatim>\<open>    lang = file_info.get('language', None)\<close>
  \<^verbatim>\<open>    if lang != 'Python': continue\<close>
  \<^verbatim>\<open>    py_files.append(file_info)\<close>
\<close>

fun select_py :: "json list \<Rightarrow> json list \<Rightarrow> error + json list" where
  "select_py py_files [] = Inr py_files"
| "select_py py_files (file_info # rest) =
     (case get_language file_info of
        Inl err \<Rightarrow> Inl err
      | Inr lang \<Rightarrow>
          if lang \<noteq> JStr ''Python'' then select_py py_files rest
          else select_py (py_files @ [file_info]) rest)"

definition GistInstaller_download :: "env \<Rightarrow> string \<Rightarrow> world \<Rightarrow> (error + json \<times> json) \<times> world" where
  "GistInstaller_download e u w =
     (case get_gist_id u of
        None \<Rightarrow> (Inl InvalidGistURLError, w)
      | Some gist_id \<Rightarrow>
          if gist_id = [] then (Inl InvalidGistURLError, w)
          else
            let json_url = ''https://api.github.com/gists/'' @ gist_id;
                w1 = w\<lparr>requests := requests w @ [json_url]\<rparr>
            in (case http_get e json_url of
                  None \<Rightarrow> (Inl GistDownloadError, w1)
                | Some gist_json \<Rightarrow>
                    (case json_loads e gist_json of
                       None \<Rightarrow> (Inl GistDownloadError, w1)
                     | Some gist_info \<Rightarrow>
                         (case getitem gist_info ''files'' of
                            Inl err \<Rightarrow> (Inl GistDownloadError, w1)
                          | Inr files \<Rightarrow>
                              (case dict_values files of
                                 Inl err \<Rightarrow> (Inl err, w1)
                               | Inr vs \<Rightarrow>
                                   (case select_py [] vs of
                                      Inl err \<Rightarrow> (Inl err, w1)
                                    | Inr py_files \<Rightarrow>
                                        if length py_files > 1 then (Inl MultipleFilesInGistError, w1)
                                        else if length py_files = 0 then (Inl NoFilesInGistError, w1)
                                        else
                                          (case getitem (hd py_files) ''filename'' of
                                             Inl err \<Rightarrow> (Inl err, w1)
                                           | Inr filename \<Rightarrow>
                                               (case getitem (hd py_files) ''content'' of
                                                  Inl err \<Rightarrow> (Inl err, w1)
                                                | Inr content \<Rightarrow> (Inr (filename, content), w1)))))))))"

text \<open>
  \<^verbatim>\<open>GistInstaller.install\<close>: \<^verbatim>\<open>os.path.join\<close> needs a string for the file name;
  the file is opened, and so created, before \<^verbatim>\<open>write\<close> looks at the content.
\<close>

definition GistInstaller_install :: "env \<Rightarrow> string \<Rightarrow> string \<Rightarrow> world \<Rightarrow> (error + unit) \<times> world" where
  "GistInstaller_install e u target_folder w =
     (case GistInstaller_download e u w of
        (Inl err, w1) \<Rightarrow> (Inl err, w1)
      | (Inr (filename, content), w1) \<Rightarrow>
          (case filename of
             JStr fn \<Rightarrow>
               (case write_file (fs w1) (join target_folder fn)
                       (case content of JStr c \<Rightarrow> c | _ \<Rightarrow> []) of
                  Inl err \<Rightarrow> (Inl err, w1)
                | Inr f \<Rightarrow>
                    (case content of
                       JStr c \<Rightarrow> (Inr (), w1\<lparr>fs := f\<rparr>)
                     | _ \<Rightarrow> (Inl TypeError, w1\<lparr>fs := f\<rparr>)))
           | _ \<Rightarrow> (Inl AttributeError, w1)))"

section \<open>Install and uninstall\<close>

text \<open>
  The button that was tapped: its title and the action bound to it,
  \<^verbatim>\<open>functools.partial(self.install, category_name, tool_name, tool_url)\<close> or the
  same of \<^verbatim>\<open>self.uninstall\<close>.
\<close>

datatype action = Install string string string | Uninstall string string string

record button =
  title :: string
  action :: action

definition get_target_folder :: "env \<Rightarrow> string \<Rightarrow> string \<Rightarrow> string" where
  "get_target_folder e category_name tool_name =
     join (join (INSTALLATION_ROOT e) category_name) tool_name"

definition is_tool_installed :: "env \<Rightarrow> world \<Rightarrow> string \<Rightarrow> string \<Rightarrow> bool" where
  "is_tool_installed e w category_name tool_name =
     path_exists (fs w) (get_target_folder e category_name tool_name)"

text \<open>\<^verbatim>\<open>if self.gist_installer.get_gist_id(tool_url):\<close> the id is there and not empty.\<close>

definition has_gist_id :: "string \<Rightarrow> bool" where
  "has_gist_id u = (case get_gist_id u of None \<Rightarrow> False | Some i \<Rightarrow> i \<noteq> [])"

text \<open>
  \<^verbatim>\<open>_install\<close> is \<open>install_bg\<close> here, and the three branches of its \<^verbatim>\<open>try\<close> block
  are \<open>install_body\<close>. It runs in the background (\<^verbatim>\<open>@ui.in_background\<close>); the
  model runs it to its end at the call. Every exception of the \<^verbatim>\<open>try\<close> block is
  caught. The modules \<^verbatim>\<open>ui\<close>, \<^verbatim>\<open>console\<close> and \<^verbatim>\<open>webbrowser\<close> are those of
  Pythonista.
\<close>

definition install_body :: "env \<Rightarrow> string \<Rightarrow> string \<Rightarrow> world \<Rightarrow> (error + unit) \<times> world" where
  "install_body e tool_url target_folder w =
     (if has_gist_id tool_url then GistInstaller_install e tool_url target_folder w
      else if truthy (get_github_user_repo tool_url)
        then GitHubRepoInstaller_install e tool_url target_folder w
      else (Inr (), w\<lparr>browser := browser w @ [tool_url]\<rparr>))"

definition install_bg :: "env \<Rightarrow> string \<Rightarrow> string \<Rightarrow> string \<Rightarrow> string \<Rightarrow> button \<Rightarrow> world
    \<Rightarrow> button \<times> world" where
  "install_bg e category_name tool_name tool_url target_folder sender w =
     (case install_body e tool_url target_folder w of
        (Inr x, w1) \<Rightarrow>
          (sender\<lparr>title := ''  Uninstall  '', action := Uninstall category_name tool_name tool_url\<rparr>,
           w1\<lparr>alerts := alerts w1 @ [(tool_name @ '' installed'', ''success'')]\<rparr>)
      | (Inl err, w1) \<Rightarrow>
          (sender,
           w1\<lparr>stderr := stderr w1 @ [err],
              alerts := alerts w1 @ [(''Installation failed'', ''error'')]\<rparr>))"

definition install :: "env \<Rightarrow> string \<Rightarrow> string \<Rightarrow> string \<Rightarrow> button \<Rightarrow> world
    \<Rightarrow> (error + unit) \<times> button \<times> world" where
  "install e category_name tool_name tool_url sender w =
     (let sender1 = sender\<lparr>title := ''  Loading  ''\<rparr>;
          target_folder = get_target_folder e category_name tool_name
      in if \<not> path_exists (fs w) target_folder then
           (case makedirs (fs w) target_folder of
              Inl err \<Rightarrow> (Inl err, sender1, w)
            | Inr f \<Rightarrow>
                (Inr (), install_bg e category_name tool_name tool_url target_folder sender1
                           (w\<lparr>fs := f\<rparr>)))
         else (Inr (), install_bg e category_name tool_name tool_url target_folder sender1 w))"

definition uninstall :: "env \<Rightarrow> string \<Rightarrow> string \<Rightarrow> string \<Rightarrow> button \<Rightarrow> world
    \<Rightarrow> (error + unit) \<times> button \<times> world" where
  "uninstall e category_name tool_name tool_url sender w =
     (let target_folder = get_target_folder e category_name tool_name;
          (r, f) = (if path_exists (fs w) target_folder then rmtree (fs w) target_folder
                    else (Inr (), fs w))
      in (case r of
            Inl err \<Rightarrow> (Inl err, sender, w\<lparr>fs := f\<rparr>)
          | Inr x \<Rightarrow>
              (Inr (),
               sender\<lparr>title := ''  Install  '', action := Install category_name tool_name tool_url\<rparr>,
               w\<lparr>fs := f, alerts := alerts w @ [(tool_name @ '' uninstalled'', ''success'')]\<rparr>)))"

section \<open>Notions used in the statements\<close>

text \<open>
  The number of files of a gist whose declared language is exactly
  \<^verbatim>\<open>Python\<close>, and the shape the gist API gives every file: a dict.
\<close>

definition py_count :: "json list \<Rightarrow> nat" where
  "py_count vs = length (filter (\<lambda>file_info. get_language file_info = Inr (JStr ''Python'')) vs)"

fun is_dict :: "json \<Rightarrow> bool" where
  "is_dict (JObj kvs) = True"
| "is_dict j = False"

text \<open>The numbers of the capture groups of a pattern.\<close>

fun group_numbers :: "re \<Rightarrow> nat set" where
  "group_numbers (Seq a b) = group_numbers a \<union> group_numbers b"
| "group_numbers (Group n a) = insert n (group_numbers a)"
| "group_numbers r = {}"

text \<open>
  The dict after the first loop of \<^verbatim>\<open>get_tools_from_md\<close>, and the labels of the
  definition lines the second loop goes through.
\<close>

definition table_rows :: "string \<Rightarrow> tools" where
  "table_rows md = fst (foldl add_row (Map.empty, []) (findall PATTERN_NAME_URL_DESCRIPTION md))"

definition definition_labels :: "string \<Rightarrow> string list" where
  "definition_labels md = map (\<lambda>g. group_str g 1) (findall PATTERN_NAME_URL md)"


section \<open>Example inputs\<close>

text \<open>
  A listing with one table row whose two slots are labels, and the two
  definition lines of the labels.
\<close>

definition listing_doc :: string where
  "listing_doc =
     ''| [Foo][f] ... | [g] |'' @ [NL] @ ''[f]: http://x'' @ [NL] @ ''[g]: http://y''"


text \<open>A state in which nothing has happened yet, on an empty file system.\<close>

definition world0 :: world where
  "world0 = \<lparr>fs = Map.empty, requests = [], cached_tools_dict = Map.empty, browser = [],
             alerts = [], stderr = []\<rparr>"

text \<open>An environment in which the gist API answers with the given files.\<close>

definition gist_env :: "(string \<times> json) list \<Rightarrow> env" where
  "gist_env files =
     \<lparr>INSTALLATION_ROOT = ''/home/Documents/bin'', TMPDIR = Some ''/tmp'',
      http_get = (\<lambda>u. Some ''{...}''),
      json_loads = (\<lambda>s. Some (JObj [(''files'', JObj files)])),
      zip_open = (\<lambda>s. None), urljoin = (\<lambda>a b. b)\<rparr>"

definition no_python_files :: "(string \<times> json) list" where
  "no_python_files =
     [(''README.md'', JObj [(''filename'', JStr ''README.md''), (''language'', JStr ''Markdown''),
                            (''content'', JStr ''hello'')]),
      (''data'', JObj [(''filename'', JStr ''data''), (''language'', JNull), (''content'', JStr ''1'')])]"

definition two_python_files :: "(string \<times> json) list" where
  "two_python_files =
     [(''a.py'', JObj [(''filename'', JStr ''a.py''), (''language'', JStr ''Python''),
                       (''content'', JStr ''pass'')]),
      (''b.py'', JObj [(''filename'', JStr ''b.py''), (''language'', JStr ''Python''),
                       (''content'', JStr ''pass'')])]"

text \<open>An environment in which every URL serves the given listing.\<close>

definition listing_env :: "string \<Rightarrow> env" where
  "listing_env md =
     \<lparr>INSTALLATION_ROOT = ''/home/Documents/bin'', TMPDIR = Some ''/tmp'',
      http_get = (\<lambda>u. Some md), json_loads = (\<lambda>s. None),
      zip_open = (\<lambda>s. None), urljoin = (\<lambda>a b. b)\<rparr>"

text \<open>A listing whose only row is labelled f, with no definition line for f.\<close>

definition unresolved_doc :: string where
  "unresolved_doc = ''| [Foo][f] ... | desc |'' @ [NL] @ ''[g]: http://y''"

text \<open>
  A listing with two rows of empty label; only the second tool has a
  definition line.
\<close>

definition empty_label_doc :: string where
  "empty_label_doc =
     ''| [Foo][] ... | desc |'' @ [NL] @ ''| [Bar][] ... | other |'' @ [NL] @ ''[Bar]: http://b''"




text \<open>A URL of neither kind, and the button of a tool that is not installed.\<close>

definition itunes_url :: string where
  "itunes_url = ''https://itunes.apple.com/us/app/pythonista/id528579881''"

definition install_button :: button where
  "install_button = \<lparr>title = ''  Install  '', action = Install ''Games'' ''Foo'' itunes_url\<rparr>"

text \<open>
  Two file systems: at the target path of the tool Foo of the category Games
  there is a regular file in the first, a directory with a file in the second.
\<close>

definition file_at_target :: filesystem where
  "file_at_target =
     [[''home''] \<mapsto> Dir, [''home'', ''Documents''] \<mapsto> Dir, [''home'', ''Documents'', ''bin''] \<mapsto> Dir,
      [''home'', ''Documents'', ''bin'', ''Games''] \<mapsto> Dir,
      [''home'', ''Documents'', ''bin'', ''Games'', ''Foo''] \<mapsto> File ''print 1'']"

definition dir_at_target :: filesystem where
  "dir_at_target =
     [[''home''] \<mapsto> Dir, [''home'', ''Documents''] \<mapsto> Dir, [''home'', ''Documents'', ''bin''] \<mapsto> Dir,
      [''home'', ''Documents'', ''bin'', ''Games''] \<mapsto> Dir,
      [''home'', ''Documents'', ''bin'', ''Games'', ''Foo''] \<mapsto> Dir,
      [''home'', ''Documents'', ''bin'', ''Games'', ''Foo'', ''main.py''] \<mapsto> File ''print 1'']"

section \<open>The matcher: properties\<close>

lemma concat_map_concat_map:
  "concat (map f (concat (map g l))) = concat (map (\<lambda>x. concat (map f (g x))) l)"
  by (induction l) simp_all

lemma run_seqs_append:
  "run (seqs (xs @ ys)) st = concat (map (run (seqs ys)) (run (seqs xs) st))"
proof (induction xs arbitrary: st)
  case Nil
  then show ?case by simp
next
  case (Cons x xs)
  have "run (seqs (xs @ ys)) = (\<lambda>st. concat (map (run (seqs ys)) (run (seqs xs) st)))"
    by (rule ext) (rule Cons.IH)
  then show ?case by (simp add: concat_map_concat_map)
qed

text \<open>
  A greedy run of a class, followed by something that can only go on at the
  character \<open>c\<close> that ends the run: every shorter run fails, the longest is left.
\<close>

lemma many_then:
  assumes "set u \<subseteq> set cs" and "c \<notin> set cs"
    and "\<And>p' x xs g'. x \<noteq> c \<Longrightarrow> F (p', x # xs, g') = []"
  shows "concat (map F (many (In cs) (p, u @ c # rest, g)))
           = F (if u = [] then p else Some (last u), c # rest, g)"
  using assms(1)
proof (induction u arbitrary: p)
  case Nil
  then show ?case using assms(2) by simp
next
  case (Cons x xs)
  then have x: "x \<in> set cs" and xs: "set xs \<subseteq> set cs" by simp_all
  from x assms(2) have "x \<noteq> c" by auto
  then have "F (p, x # xs @ c # rest, g) = []" by (rule assms(3))
  with Cons.IH [OF xs, of "Some x"] x show ?case by simp
qed

lemma one_results:
  "(p', s', g') \<in> set (one cs (p, s, g)) \<Longrightarrow> g' = g \<and> length s' < length s"
  by (cases s) (auto split: if_splits)

lemma many_results:
  "(p', s', g') \<in> set (many cs (p, s, g)) \<Longrightarrow> g' = g \<and> length s' \<le> length s"
proof (induction s arbitrary: p)
  case Nil
  then show ?case by simp
next
  case (Cons x xs)
  then show ?case by (fastforce split: if_splits)
qed

lemma plus_results:
  "(p', s', g') \<in> set (run (Plus cs) (p, s, g)) \<Longrightarrow> g' = g \<and> length s' < length s"
  by (cases s) (auto split: if_splits dest!: many_results)

lemma run_keeps_group:
  "(p', s', g') \<in> set (run r (p, s, g)) \<Longrightarrow> n \<notin> group_numbers r \<Longrightarrow> map_of g' n = map_of g n"
proof (induction r arbitrary: p s g p' s' g')
  case (Seq a b)
  from Seq.prems(1) obtain p1 s1 g1 where
    a: "(p1, s1, g1) \<in> set (run a (p, s, g))" and b: "(p', s', g') \<in> set (run b (p1, s1, g1))"
    by auto
  from Seq.prems(2) have "n \<notin> group_numbers a" "n \<notin> group_numbers b" by simp_all
  with Seq.IH(1) [OF a] Seq.IH(2) [OF b] show ?case by simp
next
  case (Group m a)
  from Group.prems(1) obtain p1 s1 g1 where
    a: "(p1, s1, g1) \<in> set (run a (p, s, g))" and c: "(p', s', g') = capture m s (p1, s1, g1)"
    by auto
  from Group.prems(2) have "n \<noteq> m" "n \<notin> group_numbers a" by simp_all
  with Group.IH [OF a] c show ?case by simp
next
  case (Plus cs)
  then show ?case using plus_results by blast
qed (auto dest: one_results many_results split: if_splits)

lemma run_seqs_member:
  "st \<in> set (run (seqs (xs @ ys)) st0) \<Longrightarrow>
   \<exists>st1 \<in> set (run (seqs xs) st0). st \<in> set (run (seqs ys) st1)"
  by (simp add: run_seqs_append)


lemma plus_group_captured:
  assumes "(p', s', g') \<in> set (run (Group n (Plus cs)) (p, s, g))"
  shows "\<exists>x. map_of g' n = Some x \<and> x \<noteq> []"
proof -
  from assms have "(p', s', g') \<in> capture n s ` set (run (Plus cs) (p, s, g))"
    by (simp only: run.simps set_map)
  then obtain st2 where c: "(p', s', g') = capture n s st2"
    and r: "st2 \<in> set (run (Plus cs) (p, s, g))"
    by blast
  obtain p2 s2 g2 where st2: "st2 = (p2, s2, g2)" by (cases st2)
  from plus_results [OF r [unfolded st2]] have "length s2 < length s" by simp
  then have "take (length s - length s2) s \<noteq> []" by (cases s) auto
  with c st2 show ?thesis by simp
qed

lemma run_seqs_single: "run (seqs [r]) st = run r st"
proof -
  have "run Eps = (\<lambda>st. [st])" by (rule ext) simp
  then show ?thesis by simp
qed

lemma label_captured:
  assumes "(p', s', g') \<in> set (run (seqs ([BolM, lit ''[''] @ [Group 1 (Plus (NotIn '']''))])) (p, s, g))"
  shows "\<exists>x. map_of g' 1 = Some x \<and> x \<noteq> []"
proof -
  from run_seqs_member [OF assms] obtain st1 where
    m: "(p', s', g') \<in> set (run (seqs [Group 1 (Plus (NotIn '']''))]) st1)"
    by blast
  obtain p1 s1 g1 where st1: "st1 = (p1, s1, g1)" by (cases st1)
  from m have "(p', s', g') \<in> set (run (Group 1 (Plus (NotIn '']''))) (p1, s1, g1))"
    unfolding run_seqs_single st1 .
  then show ?thesis by (rule plus_group_captured)
qed

lemma label_not_empty:
  assumes "(p', s', g') \<in> set (run PATTERN_NAME_URL (p, s, g))"
  shows "group_str g' 1 \<noteq> []"
proof -
  let ?A = "[BolM, lit ''['']" and ?B = "[Group 1 (Plus (NotIn '']''))]"
  let ?C = "[lit '']:'', Star (Chr CHR '' ''), Group 2 (Star AnyChar)]"
  have split: "PATTERN_NAME_URL = seqs ((?A @ ?B) @ ?C)"
    by (simp add: PATTERN_NAME_URL_def)
  from assms obtain st1 where
    a: "st1 \<in> set (run (seqs (?A @ ?B)) (p, s, g))"
    and b: "(p', s', g') \<in> set (run (seqs ?C) st1)"
    unfolding split by (blast dest: run_seqs_member)
  obtain p1 s1 g1 where st1: "st1 = (p1, s1, g1)" by (cases st1)
  have "1 \<notin> group_numbers (seqs ?C)"
    by (simp add: lit_def)
  from run_keeps_group [OF b [unfolded st1] this] label_captured [OF a [unfolded st1]] show ?thesis
    by (auto simp: group_str_def)
qed

lemma search_result:
  "search r p s = Some st \<Longrightarrow> \<exists>p0 s0. st \<in> set (run r (p0, s0, []))"
proof (induction s arbitrary: p)
  case Nil
  show ?case
  proof (cases "run r (p, [], [])")
    case Nil
    with Nil.prems show ?thesis by simp
  next
    case (Cons st' sts)
    with Nil.prems have "st \<in> set (run r (p, [], []))" by simp
    then show ?thesis by blast
  qed
next
  case (Cons x xs)
  show ?case
  proof (cases "run r (p, x # xs, [])")
    case Nil
    with Cons show ?thesis by simp
  next
    case (Cons st' sts)
    with Cons.prems have "st \<in> set (run r (p, x # xs, []))" by simp
    then show ?thesis by blast
  qed
qed

lemma findall_from_result:
  "g \<in> set (findall_from r p s) \<Longrightarrow> \<exists>p0 s0 p' s'. (p', s', g) \<in> set (run r (p0, s0, []))"
proof (induction r p s rule: findall_from.induct)
  case (1 r p s)
  show ?case
  proof (cases "search r p s")
    case None
    with "1.prems" show ?thesis by simp
  next
    case (Some st)
    obtain p1 s1 g1 where st: "st = (p1, s1, g1)" by (cases st)
    from search_result [OF Some] st have here: "\<exists>p0 s0. (p1, s1, g1) \<in> set (run r (p0, s0, []))"
      by simp
    show ?thesis
    proof (cases "g = g1")
      case True
      with here show ?thesis by blast
    next
      case False
      show ?thesis
      proof (cases "length s1 < length s")
        case True
        with "1.prems" Some st False have "g \<in> set (findall_from r p1 s1)" by simp
        from "1.IH"(1) [OF Some _ _ True this] st show ?thesis by simp
      next
        case shorter: False
        show ?thesis
        proof (cases s)
          case Nil
          with "1.prems" Some st False shorter show ?thesis by simp
        next
          case (Cons x xs)
          with "1.prems" Some st False shorter have "g \<in> set (findall_from r (Some x) xs)" by simp
          from "1.IH"(2) [OF Some _ _ shorter Cons this] st show ?thesis by simp
        qed
      qed
    qed
  qed
qed

lemma definition_labels_not_empty: "[] \<notin> set (definition_labels md)"
proof
  assume "[] \<in> set (definition_labels md)"
  then obtain g where g: "g \<in> set (findall PATTERN_NAME_URL md)" and e: "group_str g 1 = []"
    by (auto simp: definition_labels_def)
  from findall_from_result [OF g [unfolded findall_def]] label_not_empty e show False
    by blast
qed

section \<open>The listing parser: properties\<close>

lemma rows_listing_doc:
  "findall PATTERN_NAME_URL_DESCRIPTION listing_doc = [[(3, ''[g]''), (2, ''f''), (1, ''Foo'')]]"
  by code_simp

lemma definitions_listing_doc:
  "findall PATTERN_NAME_URL listing_doc =
     [[(2, ''http://x''), (1, ''f'')], [(2, ''http://y''), (1, ''g'')]]"
  by code_simp

lemma strip_label_g: "strip ''[g]'' = ''[g]''"
  by code_simp

lemma parse_listing_doc:
  "parse_md u listing_doc =
     ([''Foo'' \<mapsto> \<lparr>url = ''http://x'', description = ''http://y''\<rparr>], ''http://y'')"
  by (simp add: parse_md_def rows_listing_doc definitions_listing_doc group_str_def strip_label_g
      resolve_def substitute_def with_url_def fun_eq_iff)

text \<open>
  C8. When the document served at a URL is the listing with the row
  \<^verbatim>\<open>| [Foo][f] ... | [g] |\<close> and the definitions \<^verbatim>\<open>[f]: http://x\<close> and
  \<^verbatim>\<open>[g]: http://y\<close>, and the URL is not in the cache, \<^verbatim>\<open>get_tools_from_md\<close> returns
  the single entry Foo, its url resolved through label f to \<^verbatim>\<open>http://x\<close> and its
  description resolved through label g to \<^verbatim>\<open>http://y\<close>.
\<close>

theorem listing_doc_resolved:
  "fst (get_tools_from_md (e\<lparr>http_get := \<lambda>a. Some listing_doc\<rparr>) u
          (w\<lparr>cached_tools_dict := Map.empty\<rparr>))
     = Inr [''Foo'' \<mapsto> \<lparr>url = ''http://x'', description = ''http://y''\<rparr>]"
  by (simp add: get_tools_from_md_def parse_listing_doc)

lemma add_row_dict:
  "fst (foldl add_row (d, u) gs) = fst (foldl add_row (d, u') gs)"
proof (induction gs arbitrary: d u u')
  case Nil
  then show ?case by simp
next
  case (Cons g gs)
  have "foldl add_row (d, u) (g # gs) = foldl add_row (add_row (d, u) g) gs" by simp
  moreover have "foldl add_row (d, u') (g # gs) = foldl add_row (add_row (d, u') g) gs" by simp
  moreover have "fst (add_row (d, u) g) = fst (add_row (d, u') g)" by simp
  ultimately show ?case
    using Cons.IH [of "fst (add_row (d, u) g)" "snd (add_row (d, u) g)" "snd (add_row (d, u') g)"]
    by (metis prod.collapse)
qed

lemma empty_url_stays:
  assumes "d n = Some tc" and "url tc = []"
    and "\<forall>g \<in> set gs. group_str g 1 \<noteq> n \<and> group_str g 1 \<noteq> []"
  shows "\<exists>tc'. fst (foldl add_definition (d, v) gs) n = Some tc' \<and> url tc' = []"
  using assms
proof (induction gs arbitrary: d v tc)
  case Nil
  then show ?case by simp
next
  case (Cons g gs)
  let ?d = "resolve d (group_str g 1) (group_str g 2)"
  from Cons.prems have l: "group_str g 1 \<noteq> n" "group_str g 1 \<noteq> []" by simp_all
  with Cons.prems(1,2) have "\<exists>tc1. ?d n = Some tc1 \<and> url tc1 = []"
    by (auto simp: resolve_def substitute_def Let_def split: option.splits)
  then obtain tc1 where "?d n = Some tc1" "url tc1 = []" by blast
  from Cons.IH [where d = ?d and tc = tc1 and v = "group_str g 2", OF this] Cons.prems(3)
  show ?case by simp
qed

lemma with_url_has_url: "with_url d n = Some tc \<Longrightarrow> url tc \<noteq> []"
  by (auto simp: with_url_def split: option.splits if_splits)

lemma empty_label_doc_rows:
  "findall PATTERN_NAME_URL_DESCRIPTION empty_label_doc =
     [[(3, ''desc''), (2, []), (1, ''Foo'')], [(3, ''other''), (2, []), (1, ''Bar'')]]"
  by code_simp

lemma empty_label_doc_definitions:
  "findall PATTERN_NAME_URL empty_label_doc = [[(2, ''http://b''), (1, ''Bar'')]]"
  by code_simp

lemma unresolved_doc_rows:
  "findall PATTERN_NAME_URL_DESCRIPTION unresolved_doc = [[(3, ''desc''), (2, ''f''), (1, ''Foo'')]]"
  by code_simp

lemma unresolved_doc_definitions:
  "findall PATTERN_NAME_URL unresolved_doc = [[(2, ''http://y''), (1, ''g'')]]"
  by code_simp

text \<open>
  C1, as the code has it. On a cache miss for a URL that serves a listing,
  \<^verbatim>\<open>get_tools_from_md\<close> returns a mapping in which every entry has a non-empty
  url, and a tool whose url is empty after the first loop (its row has the
  empty label \<^verbatim>\<open>[]\<close>) and whose name labels no definition line is not in the
  mapping.
\<close>

theorem returned_tools_have_url:
  assumes "cached_tools_dict w u = None" and "http_get e u = Some md"
  shows "\<exists>t w'. get_tools_from_md e u w = (Inr t, w') \<and>
           (\<forall>n tc. t n = Some tc \<longrightarrow> url tc \<noteq> []) \<and>
           (\<forall>n tc. table_rows md n = Some tc \<and> url tc = [] \<and> n \<notin> set (definition_labels md)
                \<longrightarrow> t n = None)"
proof -
  let ?rows = "findall PATTERN_NAME_URL_DESCRIPTION md" and ?defs = "findall PATTERN_NAME_URL md"
  let ?st1 = "foldl add_row (Map.empty, u) ?rows"
  let ?st2 = "foldl add_definition ?st1 ?defs"
  let ?t = "with_url (fst ?st2)"
  from assms have r: "get_tools_from_md e u w =
      (Inr ?t, w\<lparr>requests := requests w @ [u],
                 cached_tools_dict := (cached_tools_dict w)(snd ?st2 \<mapsto> ?t)\<rparr>)"
    by (simp add: get_tools_from_md_def parse_md_def Let_def)
  have nonempty: "\<forall>n tc. ?t n = Some tc \<longrightarrow> url tc \<noteq> []"
    by (blast dest: with_url_has_url)
  have dropped: "?t n = None"
    if n: "table_rows md n = Some tc" "url tc = []" "n \<notin> set (definition_labels md)" for n tc
  proof -
    from n(1) have c: "fst ?st1 n = Some tc"
      unfolding table_rows_def using add_row_dict [of Map.empty u ?rows "[]"] by simp
    have "group_str g 1 \<in> set (definition_labels md)" if "g \<in> set ?defs" for g
      using that unfolding definition_labels_def set_map by (rule imageI)
    with n(3) definition_labels_not_empty [of md]
    have "\<forall>g \<in> set ?defs. group_str g 1 \<noteq> n \<and> group_str g 1 \<noteq> []"
      by metis
    from empty_url_stays [where d = "fst ?st1" and n = n and tc = tc and gs = ?defs
          and v = "snd ?st1", OF c n(2) this]
    show ?thesis by (auto simp: with_url_def)
  qed
  from r nonempty dropped show ?thesis by blast
qed

theorem returned_tools_have_url_witness:
  "cached_tools_dict world0 ''http://doc'' = None \<and>
   http_get (listing_env empty_label_doc) ''http://doc'' = Some empty_label_doc \<and>
   table_rows empty_label_doc ''Foo'' = Some \<lparr>url = [], description = ''desc''\<rparr> \<and>
   ''Foo'' \<notin> set (definition_labels empty_label_doc) \<and>
   (\<exists>t w'. get_tools_from_md (listing_env empty_label_doc) ''http://doc'' world0 = (Inr t, w') \<and>
            t ''Foo'' = None)"
proof -
  have c: "cached_tools_dict world0 ''http://doc'' = None" by (simp add: world0_def)
  have h: "http_get (listing_env empty_label_doc) ''http://doc'' = Some empty_label_doc"
    by (simp add: listing_env_def)
  have s: "strip ''desc'' = ''desc''" by code_simp
  have s2: "strip ''other'' = ''other''" by code_simp
  have r: "table_rows empty_label_doc ''Foo'' = Some \<lparr>url = [], description = ''desc''\<rparr>"
    by (simp add: table_rows_def empty_label_doc_rows group_str_def s s2)
  have l: "''Foo'' \<notin> set (definition_labels empty_label_doc)"
    by (simp add: definition_labels_def empty_label_doc_definitions group_str_def)
  from returned_tools_have_url [OF c h] obtain t w' where
    g: "get_tools_from_md (listing_env empty_label_doc) ''http://doc'' world0 = (Inr t, w')"
    and d: "\<forall>n tc. table_rows empty_label_doc n = Some tc \<and> url tc = [] \<and>
              n \<notin> set (definition_labels empty_label_doc) \<longrightarrow> t n = None"
    by blast
  from d r l have "t ''Foo'' = None" by simp
  with g have "\<exists>t w'. get_tools_from_md (listing_env empty_label_doc) ''http://doc'' world0 = (Inr t, w') \<and>
            t ''Foo'' = None" by blast
  with c h r l show ?thesis by blast
qed

text \<open>
  C1 as stated fails: the row \<^verbatim>\<open>| [Foo][f] ... | desc |\<close> is labelled f, the only
  definition line is labelled g, and Foo is returned with the label itself as
  its url.
\<close>

theorem unresolved_label_kept:
  "definition_labels unresolved_doc = [''g''] \<and>
   table_rows unresolved_doc ''Foo'' = Some \<lparr>url = ''f'', description = ''desc''\<rparr> \<and>
   fst (get_tools_from_md (listing_env unresolved_doc) ''http://doc'' world0)
     = Inr [''Foo'' \<mapsto> \<lparr>url = ''f'', description = ''desc''\<rparr>]"
proof -
  have s: "strip ''desc'' = ''desc''" by code_simp
  have "parse_md ''http://doc'' unresolved_doc =
          ([''Foo'' \<mapsto> \<lparr>url = ''f'', description = ''desc''\<rparr>], ''http://y'')"
    by (simp add: parse_md_def unresolved_doc_rows unresolved_doc_definitions group_str_def s
        resolve_def substitute_def with_url_def fun_eq_iff)
  then show ?thesis
    by (simp add: get_tools_from_md_def listing_env_def world0_def definition_labels_def
        table_rows_def unresolved_doc_rows unresolved_doc_definitions group_str_def s)
qed

text \<open>
  C2. The cache is consulted under the URL of the document, but the dict is
  stored under the value the loops left in \<^verbatim>\<open>url\<close>: for the listing above that is
  \<^verbatim>\<open>http://y\<close>, the URL of its last definition line. After a first call for
  \<^verbatim>\<open>http://doc\<close> the cache has no entry for \<^verbatim>\<open>http://doc\<close>, and a second call for
  the same URL sends a second request.
\<close>

theorem cache_key_is_last_definition:
  "(case get_tools_from_md (e\<lparr>http_get := \<lambda>a. Some listing_doc\<rparr>) ''http://doc''
           (w\<lparr>cached_tools_dict := Map.empty, requests := []\<rparr>) of
      (r1, w1) \<Rightarrow>
        cached_tools_dict w1 ''http://doc'' = None \<and>
        cached_tools_dict w1 ''http://y'' \<noteq> None \<and>
        requests w1 = [''http://doc''] \<and>
        requests (snd (get_tools_from_md (e\<lparr>http_get := \<lambda>a. Some listing_doc\<rparr>) ''http://doc'' w1))
          = [''http://doc'', ''http://doc''])"
  by (simp add: get_tools_from_md_def parse_listing_doc)



section \<open>The source classifier: properties\<close>

text \<open>
  C3. For \<^verbatim>\<open>https://github.com/alice/tool\<close> the pattern captures alice and tool,
  but \<^verbatim>\<open>get_github_user_repo\<close> returns the method \<^verbatim>\<open>m.groups\<close> and not the pair, so
  that \<^verbatim>\<open>download\<close> raises \<^verbatim>\<open>TypeError\<close> when it unpacks the result. For the gist
  URL \<^verbatim>\<open>get_gist_id\<close> returns the hexadecimal segment, and for the iTunes URL
  both functions return \<^verbatim>\<open>None\<close>.
\<close>

theorem groups_method_returned:
  "get_github_user_repo ''https://github.com/alice/tool'' = BoundGroups [''alice'', ''tool''] \<and>
   get_github_user_repo ''https://github.com/alice/tool'' \<noteq> PyTuple [''alice'', ''tool''] \<and>
   GitHubRepoInstaller_download e ''https://github.com/alice/tool'' w = (Inl TypeError, w) \<and>
   get_gist_id ''https://gist.github.com/bob/abcdef1234567890'' = Some ''abcdef1234567890'' \<and>
   get_gist_id ''https://itunes.apple.com/us/app/pythonista/id528579881'' = None \<and>
   get_github_user_repo ''https://itunes.apple.com/us/app/pythonista/id528579881'' = PyNone"
proof -
  have a: "get_github_user_repo ''https://github.com/alice/tool'' = BoundGroups [''alice'', ''tool'']"
    by code_simp
  have b: "get_gist_id ''https://gist.github.com/bob/abcdef1234567890'' = Some ''abcdef1234567890''"
    by code_simp
  have c: "get_gist_id ''https://itunes.apple.com/us/app/pythonista/id528579881'' = None"
    by code_simp
  have d: "get_github_user_repo ''https://itunes.apple.com/us/app/pythonista/id528579881'' = PyNone"
    by code_simp
  show ?thesis
    by (simp add: a b c d GitHubRepoInstaller_download_def)
qed

lemma slash_not_alnum: "CHR ''/'' \<notin> set alnum"
  by (simp add: alnum_def)

lemma gist_prefix:
  "run (seqs [lit ''http'', Group 1 (Opt (Chr CHR ''s'')), lit ''://gist'', One AnyChar,
           lit ''github'', One AnyChar, lit ''com/'']) (None, ''https://gist.github.com/'' @ t, [])
     = [(Some CHR ''/'', t, [(1, ''s'')])]"
  by (simp add: lit_def NL_def)

lemma gist_suffix:
  assumes "set user \<subseteq> set alnum"
  shows "run (seqs [Group 2 (Star (In alnum)), lit ''/'', Group 3 (Star (In hexdigit))])
           (Some CHR ''/'', user @ ''/'', g)
     = [(Some CHR ''/'', [], (3, []) # (2, user) # g)]"
proof -
  let ?F = "\<lambda>st. run (seqs [lit ''/'', Group 3 (Star (In hexdigit))]) (capture 2 (user @ ''/'') st)"
  have F: "\<And>p' x xs g'. x \<noteq> CHR ''/'' \<Longrightarrow> ?F (p', x # xs, g') = []"
    by (simp add: lit_def)
  have "run (seqs [Group 2 (Star (In alnum)), lit ''/'', Group 3 (Star (In hexdigit))])
           (Some CHR ''/'', user @ ''/'', g)
        = concat (map ?F (many (In alnum) (Some CHR ''/'', user @ CHR ''/'' # [], g)))"
    by (simp add: comp_def map_concat)
  also have "\<dots> = ?F (if user = [] then Some CHR ''/'' else Some (last user), CHR ''/'' # [], g)"
    by (rule many_then [where F = ?F, OF assms slash_not_alnum F])
  also have "\<dots> = [(Some CHR ''/'', [], (3, []) # (2, user) # g)]"
    by (simp add: lit_def)
  finally show ?thesis .
qed

lemma gist_pattern_split:
  "PATTERN_GIST_ID =
     seqs ([lit ''http'', Group 1 (Opt (Chr CHR ''s'')), lit ''://gist'', One AnyChar,
            lit ''github'', One AnyChar, lit ''com/'']
           @ [Group 2 (Star (In alnum)), lit ''/'', Group 3 (Star (In hexdigit))])"
  by (simp add: PATTERN_GIST_ID_def)

lemma gist_empty_id_match:
  assumes "set user \<subseteq> set alnum"
  shows "re_match PATTERN_GIST_ID (''https://gist.github.com/'' @ user @ ''/'')
           = Some [(3, []), (2, user), (1, ''s'')]"
  unfolding re_match_def gist_pattern_split run_seqs_append gist_prefix
  by (simp add: gist_suffix [OF assms] del: run.simps seqs.simps)

lemma many_then_class:
  assumes "set u \<subseteq> set cs" and "c \<notin> set cs"
    and "\<And>p' x xs g'. x \<in> set cs \<Longrightarrow> F (p', x # xs, g') = []"
  shows "concat (map F (many (In cs) (p, u @ c # rest, g)))
           = F (if u = [] then p else Some (last u), c # rest, g)"
  using assms(1)
proof (induction u arbitrary: p)
  case Nil
  then show ?case using assms(2) by simp
next
  case (Cons x xs)
  then have x: "x \<in> set cs" and xs: "set xs \<subseteq> set cs" by simp_all
  from x have "F (p, x # xs @ c # rest, g) = []" by (rule assms(3))
  with Cons.IH [OF xs, of "Some x"] x show ?case by simp
qed

lemma gist_suffix_no_slash:
  assumes "set u \<subseteq> set alnum" and "c \<notin> set alnum" and "c \<noteq> CHR ''/''"
  shows "run (seqs [Group 2 (Star (In alnum)), lit ''/'', Group 3 (Star (In hexdigit))])
           (Some CHR ''/'', u @ c # rest, g) = []"
proof -
  let ?s = "u @ c # rest"
  let ?F = "\<lambda>st. run (seqs [lit ''/'', Group 3 (Star (In hexdigit))]) (capture 2 ?s st)"
  have ne: "\<And>p' x xs g'. x \<noteq> CHR ''/'' \<Longrightarrow> ?F (p', x # xs, g') = []"
    by (simp add: lit_def)
  have F: "\<And>p' x xs g'. x \<in> set alnum \<Longrightarrow> ?F (p', x # xs, g') = []"
  proof -
    fix p' :: "char option" and x xs and g' :: "(nat \<times> string) list"
    assume "x \<in> set alnum"
    with slash_not_alnum have "x \<noteq> CHR ''/''" by auto
    then show "?F (p', x # xs, g') = []" by (rule ne)
  qed
  have "run (seqs [Group 2 (Star (In alnum)), lit ''/'', Group 3 (Star (In hexdigit))])
           (Some CHR ''/'', ?s, g)
        = concat (map ?F (many (In alnum) (Some CHR ''/'', u @ c # rest, g)))"
    by (simp add: comp_def map_concat)
  also have "\<dots> = ?F (if u = [] then Some CHR ''/'' else Some (last u), c # rest, g)"
    by (rule many_then_class [where F = ?F, OF assms(1,2) F])
  also have "\<dots> = []"
    using assms(3) by (rule ne)
  finally show ?thesis .
qed

lemma gist_other_user_no_match:
  assumes "\<not> set user \<subseteq> set alnum" and "CHR ''/'' \<notin> set user"
  shows "re_match PATTERN_GIST_ID (''https://gist.github.com/'' @ user @ ''/'') = None"
proof -
  from assms(1) have "\<exists>x \<in> set user. x \<notin> set alnum" by auto
  then obtain u c r where user: "user = u @ c # r" and c: "c \<notin> set alnum"
    and u: "\<forall>y \<in> set u. \<not> y \<notin> set alnum"
    by (rule split_list_first_propE)
  from u have u': "set u \<subseteq> set alnum" by auto
  from assms(2) user have "c \<noteq> CHR ''/''" by auto
  from gist_suffix_no_slash [OF u' c this]
  have "run (seqs [Group 2 (Star (In alnum)), lit ''/'', Group 3 (Star (In hexdigit))])
           (Some CHR ''/'', user @ ''/'', [(1, ''s'')]) = []"
    unfolding user by simp
  then show ?thesis
    unfolding re_match_def gist_pattern_split run_seqs_append gist_prefix
    by (simp del: run.simps seqs.simps)
qed

text \<open>
  C9, as the code has it. For a URL \<^verbatim>\<open>https://gist.github.com/<user>/\<close> whose
  user segment has no slash and after whose last slash nothing follows,
  \<^verbatim>\<open>download\<close> raises \<^verbatim>\<open>InvalidGistURLError\<close> in an unchanged state: no request has
  been sent. When the user segment is made of letters and digits only, the gist
  pattern matches and \<^verbatim>\<open>get_gist_id\<close> returns the empty string; otherwise the
  pattern does not match and \<^verbatim>\<open>get_gist_id\<close> returns \<^verbatim>\<open>None\<close>.
\<close>

theorem empty_gist_id_is_invalid:
  assumes "CHR ''/'' \<notin> set user"
  shows "GistInstaller_download e (''https://gist.github.com/'' @ user @ ''/'') w
           = (Inl InvalidGistURLError, w) \<and>
         (if set user \<subseteq> set alnum
          then re_match PATTERN_GIST_ID (''https://gist.github.com/'' @ user @ ''/'') \<noteq> None \<and>
               get_gist_id (''https://gist.github.com/'' @ user @ ''/'') = Some []
          else re_match PATTERN_GIST_ID (''https://gist.github.com/'' @ user @ ''/'') = None \<and>
               get_gist_id (''https://gist.github.com/'' @ user @ ''/'') = None)"
proof (cases "set user \<subseteq> set alnum")
  case True
  from gist_empty_id_match [OF True] True show ?thesis
    by (simp add: get_gist_id_def group_def GistInstaller_download_def)
next
  case False
  from gist_other_user_no_match [OF False assms] False show ?thesis
    by (simp add: get_gist_id_def group_def GistInstaller_download_def)
qed

theorem empty_gist_id_is_invalid_witness:
  "CHR ''/'' \<notin> set ''bob'' \<and> set ''bob'' \<subseteq> set alnum \<and>
   get_gist_id ''https://gist.github.com/bob/'' = Some [] \<and>
   GistInstaller_download (gist_env two_python_files) ''https://gist.github.com/bob/'' world0
     = (Inl InvalidGistURLError, world0) \<and>
   CHR ''/'' \<notin> set ''bob-smith'' \<and>
   GistInstaller_download (gist_env two_python_files) ''https://gist.github.com/bob-smith/'' world0
     = (Inl InvalidGistURLError, world0)"
proof -
  have h: "CHR ''/'' \<notin> set ''bob''" and a: "set ''bob'' \<subseteq> set alnum"
    and h2: "CHR ''/'' \<notin> set ''bob-smith''"
    by (simp_all add: alnum_def)
  from empty_gist_id_is_invalid [OF h, of "gist_env two_python_files" world0]
       empty_gist_id_is_invalid [OF h2, of "gist_env two_python_files" world0] h a h2
  show ?thesis by simp
qed

text \<open>
  C9 as stated fails: the user segment \<^verbatim>\<open>bob-smith\<close> has a hyphen, which the
  class \<^verbatim>\<open>[0-9a-zA-Z]\<close> of the pattern does not admit, so the pattern does not
  match and \<^verbatim>\<open>get_gist_id\<close> returns \<^verbatim>\<open>None\<close>, not the empty string.
\<close>

theorem hyphenated_user_no_match:
  "re_match PATTERN_GIST_ID ''https://gist.github.com/bob-smith/'' = None \<and>
   get_gist_id ''https://gist.github.com/bob-smith/'' = None"
  by code_simp

section \<open>The gist installer: properties\<close>

lemma select_py_dicts:
  "list_all is_dict vs \<Longrightarrow>
   select_py acc vs = Inr (acc @ filter (\<lambda>fi. get_language fi = Inr (JStr ''Python'')) vs)"
proof (induction vs arbitrary: acc)
  case Nil
  then show ?case by simp
next
  case (Cons fi vs)
  then obtain kvs where fi: "fi = JObj kvs" by (cases fi) auto
  from Cons show ?case
    by (auto simp: fi split: option.splits)
qed

lemma gist_download_counts:
  assumes "get_gist_id u = Some gist_id" and "gist_id \<noteq> []"
    and "http_get e (''https://api.github.com/gists/'' @ gist_id) = Some gist_json"
    and "json_loads e gist_json = Some gist_info"
    and "getitem gist_info ''files'' = Inr (JObj files)"
    and "list_all is_dict (map snd files)"
  shows "GistInstaller_download e u w =
     (let w1 = w\<lparr>requests := requests w @ [''https://api.github.com/gists/'' @ gist_id]\<rparr>;
          py_files = filter (\<lambda>fi. get_language fi = Inr (JStr ''Python'')) (map snd files)
      in if length py_files > 1 then (Inl MultipleFilesInGistError, w1)
         else if length py_files = 0 then (Inl NoFilesInGistError, w1)
         else (case getitem (hd py_files) ''filename'' of
                 Inl err \<Rightarrow> (Inl err, w1)
               | Inr filename \<Rightarrow>
                   (case getitem (hd py_files) ''content'' of
                      Inl err \<Rightarrow> (Inl err, w1)
                    | Inr content \<Rightarrow> (Inr (filename, content), w1))))"
  using assms
  by (simp add: GistInstaller_download_def select_py_dicts Let_def)

text \<open>
  C5. For a gist URL with an id, whose metadata is fetched and decoded and
  lists its files as dicts: when no file declares the language \<^verbatim>\<open>Python\<close>,
  \<^verbatim>\<open>GistInstaller.install\<close> raises \<^verbatim>\<open>NoFilesInGistError\<close>; when more than one does,
  it raises \<^verbatim>\<open>MultipleFilesInGistError\<close>; in both cases the file system is as it
  was before the call.
\<close>

theorem gist_needs_one_python_file:
  assumes "get_gist_id u = Some gist_id" and "gist_id \<noteq> []"
    and "http_get e (''https://api.github.com/gists/'' @ gist_id) = Some gist_json"
    and "json_loads e gist_json = Some gist_info"
    and "getitem gist_info ''files'' = Inr (JObj files)"
    and "list_all is_dict (map snd files)"
  shows "(py_count (map snd files) = 0 \<longrightarrow>
            fst (GistInstaller_install e u target_folder w) = Inl NoFilesInGistError \<and>
            fs (snd (GistInstaller_install e u target_folder w)) = fs w) \<and>
         (py_count (map snd files) > 1 \<longrightarrow>
            fst (GistInstaller_install e u target_folder w) = Inl MultipleFilesInGistError \<and>
            fs (snd (GistInstaller_install e u target_folder w)) = fs w)"
proof -
  note d = gist_download_counts [OF assms, of w]
  have zero: "py_count (map snd files) = 0 \<Longrightarrow>
      GistInstaller_install e u target_folder w =
        (Inl NoFilesInGistError, w\<lparr>requests := requests w @ [''https://api.github.com/gists/'' @ gist_id]\<rparr>)"
    using d by (simp add: GistInstaller_install_def py_count_def Let_def)
  have more: "py_count (map snd files) > 1 \<Longrightarrow>
      GistInstaller_install e u target_folder w =
        (Inl MultipleFilesInGistError, w\<lparr>requests := requests w @ [''https://api.github.com/gists/'' @ gist_id]\<rparr>)"
    using d by (simp add: GistInstaller_install_def py_count_def Let_def)
  show ?thesis
    using zero more by simp
qed

lemma bob_gist_id: "get_gist_id ''https://gist.github.com/bob/abcdef1234567890'' = Some ''abcdef1234567890''"
  by code_simp

theorem gist_needs_one_python_file_witness:
  "fst (GistInstaller_install (gist_env no_python_files) ''https://gist.github.com/bob/abcdef1234567890''
      ''/home/Documents/bin/Games/Foo'' world0) = Inl NoFilesInGistError \<and>
   fs (snd (GistInstaller_install (gist_env no_python_files) ''https://gist.github.com/bob/abcdef1234567890''
      ''/home/Documents/bin/Games/Foo'' world0)) = fs world0 \<and>
   fst (GistInstaller_install (gist_env two_python_files) ''https://gist.github.com/bob/abcdef1234567890''
      ''/home/Documents/bin/Games/Foo'' world0) = Inl MultipleFilesInGistError \<and>
   fs (snd (GistInstaller_install (gist_env two_python_files) ''https://gist.github.com/bob/abcdef1234567890''
      ''/home/Documents/bin/Games/Foo'' world0)) = fs world0"
proof -
  have n: "''abcdef1234567890'' \<noteq> []" by simp
  have g0: "http_get (gist_env no_python_files) (''https://api.github.com/gists/'' @ ''abcdef1234567890'') = Some ''{...}''"
    and g2: "http_get (gist_env two_python_files) (''https://api.github.com/gists/'' @ ''abcdef1234567890'') = Some ''{...}''"
    by (simp_all add: gist_env_def)
  have j0: "json_loads (gist_env no_python_files) ''{...}'' = Some (JObj [(''files'', JObj no_python_files)])"
    and j2: "json_loads (gist_env two_python_files) ''{...}'' = Some (JObj [(''files'', JObj two_python_files)])"
    by (simp_all add: gist_env_def)
  have f0: "getitem (JObj [(''files'', JObj no_python_files)]) ''files'' = Inr (JObj no_python_files)"
    and f2: "getitem (JObj [(''files'', JObj two_python_files)]) ''files'' = Inr (JObj two_python_files)"
    by simp_all
  have d0: "list_all is_dict (map snd no_python_files)"
    and d2: "list_all is_dict (map snd two_python_files)"
    by (simp_all add: no_python_files_def two_python_files_def)
  have c0: "py_count (map snd no_python_files) = 0"
    and c2: "py_count (map snd two_python_files) = 2"
    by (simp_all add: py_count_def no_python_files_def two_python_files_def)
  from gist_needs_one_python_file [OF bob_gist_id n g0 j0 f0 d0, of "''/home/Documents/bin/Games/Foo''" world0]
       gist_needs_one_python_file [OF bob_gist_id n g2 j2 f2 d2, of "''/home/Documents/bin/Games/Foo''" world0]
       c0 c2
  show ?thesis
    by simp
qed

section \<open>Paths and the file system: properties\<close>















lemma makedirs_exists:
  assumes "makedirs f s = Inr f'"
  shows "path_exists f' s"
proof -
  let ?p = "components s"
  from assms have s: "s \<noteq> []" and n: "node_at f ?p = None"
    and f': "f' = (\<lambda>q. if q \<noteq> [] \<and> take (length q) ?p = q \<and> f q = None then Some Dir else f q)"
    by (auto simp: makedirs_def Let_def split: if_splits)
  from n have p: "?p \<noteq> []" and "f ?p = None"
    by (auto simp: node_at_def split: if_splits)
  with f' have "node_at f' ?p = Some Dir" by (simp add: node_at_def)
  with s show ?thesis by (simp add: path_exists_def)
qed

lemma rmtree_dir:
  assumes "node_at f (components s) = Some Dir" and "components s \<noteq> []"
  shows "rmtree f s = (Inr (), (\<lambda>q. if take (length (components s)) q = components s then None else f q))"
proof -
  from assms(2) have "s \<noteq> []" by (auto simp: components_def)
  with assms show ?thesis by (simp add: rmtree_def Let_def)
qed

lemma rmtree_gone:
  assumes "components s \<noteq> []"
  shows "\<not> path_exists (\<lambda>q. if take (length (components s)) q = components s then None else f q) s"
  using assms by (simp add: path_exists_def node_at_def)

lemma exists_dir:
  assumes "path_exists f s" and "\<not> is_file (node_at f (components s))"
  shows "node_at f (components s) = Some Dir"
proof (cases "node_at f (components s)")
  case None
  with assms(1) show ?thesis by (simp add: path_exists_def)
next
  case (Some n)
  with assms(2) show ?thesis by (cases n) simp_all
qed

section \<open>The repository archive installer: properties\<close>





section \<open>Install and uninstall: properties\<close>

lemma unknown_url_body:
  assumes "re_match PATTERN_GIST_ID u = None" and "re_match PATTERN_USER_REPO u = None"
  shows "install_body e u target_folder w = (Inr (), w\<lparr>browser := browser w @ [u]\<rparr>)"
  using assms
  by (simp add: install_body_def has_gist_id_def get_gist_id_def get_github_user_repo_def)

lemma itunes_unknown:
  "re_match PATTERN_GIST_ID itunes_url = None" "re_match PATTERN_USER_REPO itunes_url = None"
  by code_simp+

lemma itunes_install:
  "fst (install (listing_env []) ''Games'' ''Foo'' itunes_url install_button world0) = Inr ()"
  by code_simp

text \<open>
  C6, as the code has it. For a URL that matches neither pattern, an
  \<^verbatim>\<open>install\<close> call that returns has handed the URL to the browser, and the tool
  counts as installed afterwards: the target folder was made before the
  dispatch, the button reads Uninstall and the alert says installed.
\<close>

theorem unknown_url_opened_and_installed:
  assumes "re_match PATTERN_GIST_ID u = None" and "re_match PATTERN_USER_REPO u = None"
    and "install e category_name tool_name u sender w = (Inr (), sender', w')"
  shows "browser w' = browser w @ [u] \<and>
         is_tool_installed e w' category_name tool_name \<and>
         title sender' = ''  Uninstall  '' \<and>
         alerts w' = alerts w @ [(tool_name @ '' installed'', ''success'')]"
proof (cases "path_exists (fs w) (get_target_folder e category_name tool_name)")
  case True
  with assms(3) unknown_url_body [OF assms(1,2)] show ?thesis
    by (auto simp: install_def install_bg_def Let_def is_tool_installed_def)
next
  case False
  with assms(3) obtain f where m: "makedirs (fs w) (get_target_folder e category_name tool_name) = Inr f"
    by (auto simp: install_def Let_def split: sum.splits)
  from makedirs_exists [OF m] False m assms(3) unknown_url_body [OF assms(1,2)] show ?thesis
    by (auto simp: install_def install_bg_def Let_def is_tool_installed_def)
qed

theorem unknown_url_opened_and_installed_witness:
  "re_match PATTERN_GIST_ID itunes_url = None \<and> re_match PATTERN_USER_REPO itunes_url = None \<and>
   fst (install (listing_env []) ''Games'' ''Foo'' itunes_url install_button world0) = Inr () \<and>
   browser (snd (snd (install (listing_env []) ''Games'' ''Foo'' itunes_url install_button world0)))
     = [itunes_url] \<and>
   is_tool_installed (listing_env [])
     (snd (snd (install (listing_env []) ''Games'' ''Foo'' itunes_url install_button world0)))
     ''Games'' ''Foo''"
proof -
  obtain r b w' where i: "install (listing_env []) ''Games'' ''Foo'' itunes_url install_button world0 = (r, b, w')"
    by (cases "install (listing_env []) ''Games'' ''Foo'' itunes_url install_button world0") auto
  with itunes_install have r: "r = Inr ()" by simp
  from unknown_url_opened_and_installed [OF itunes_unknown i [unfolded r]] itunes_unknown i r
  show ?thesis by (simp add: world0_def)
qed

text \<open>
  C6 as stated fails: the iTunes URL matches neither pattern, the tool is not
  installed before the call, and it is installed after it.
\<close>

theorem unknown_url_marked_installed:
  "re_match PATTERN_GIST_ID itunes_url = None \<and> re_match PATTERN_USER_REPO itunes_url = None \<and>
   \<not> is_tool_installed (listing_env []) world0 ''Games'' ''Foo'' \<and>
   is_tool_installed (listing_env [])
     (snd (snd (install (listing_env []) ''Games'' ''Foo'' itunes_url install_button world0)))
     ''Games'' ''Foo''"
  by code_simp

lemma rmtree_file:
  assumes "is_file (node_at f (components s))"
  shows "rmtree f s = (Inl OSError, f)"
proof (cases "node_at f (components s)")
  case None
  with assms show ?thesis by simp
next
  case (Some n)
  with assms obtain d where "n = File d" by (cases n) simp_all
  with Some show ?thesis by (simp add: rmtree_def Let_def)
qed

lemma exists_file:
  assumes "is_file (node_at f (components s))" and "\<not> endswith_slash s"
  shows "path_exists f s"
proof (cases "node_at f (components s)")
  case None
  with assms show ?thesis by simp
next
  case (Some n)
  with assms(1) obtain d where n: "n = File d" by (cases n) simp_all
  have "s \<noteq> []"
  proof
    assume "s = []"
    then have "components s = []" by (simp add: components_def)
    with Some n show False by (simp add: node_at_def)
  qed
  with Some n assms(2) show ?thesis by (simp add: path_exists_def)
qed

text \<open>
  C7, as the code has it. Let no component of the target path be \<^verbatim>\<open>.\<close> or
  \<^verbatim>\<open>..\<close>. When the target path is absent, or is a directory other than the
  root of the file system, \<^verbatim>\<open>uninstall\<close> returns and shows the success alert, the
  tool is not installed afterwards, and a second \<^verbatim>\<open>uninstall\<close> right after it
  returns and shows the alert again without changing the file system. When the
  target path is a regular file, the tool counts as installed and \<^verbatim>\<open>uninstall\<close>
  raises the \<^verbatim>\<open>OSError\<close> of \<^verbatim>\<open>shutil.rmtree\<close>, with the button and the state as
  they were.
\<close>

theorem uninstall_directory_or_absent:
  assumes "''.'' \<notin> set (components (get_target_folder e category_name tool_name))"
    and "''..'' \<notin> set (components (get_target_folder e category_name tool_name))"
  shows "(\<not> is_file (node_at (fs w) (components (get_target_folder e category_name tool_name))) \<and>
          components (get_target_folder e category_name tool_name) \<noteq> [] \<longrightarrow>
          (\<exists>sender' w'.
             uninstall e category_name tool_name u sender w = (Inr (), sender', w') \<and>
             alerts w' = alerts w @ [(tool_name @ '' uninstalled'', ''success'')] \<and>
             \<not> is_tool_installed e w' category_name tool_name \<and>
             (\<exists>sender'' w''.
                uninstall e category_name tool_name u sender' w' = (Inr (), sender'', w'') \<and>
                fs w'' = fs w' \<and>
                alerts w'' = alerts w' @ [(tool_name @ '' uninstalled'', ''success'')]))) \<and>
         (is_file (node_at (fs w) (components (get_target_folder e category_name tool_name))) \<and>
          \<not> endswith_slash (get_target_folder e category_name tool_name) \<longrightarrow>
          is_tool_installed e w category_name tool_name \<and>
          uninstall e category_name tool_name u sender w = (Inl OSError, sender, w))"
proof (intro conjI impI)
  let ?t = "get_target_folder e category_name tool_name"
  assume f: "is_file (node_at (fs w) (components ?t)) \<and> \<not> endswith_slash ?t"
  then have x: "path_exists (fs w) ?t" by (simp add: exists_file)
  then show "is_tool_installed e w category_name tool_name"
    by (simp add: is_tool_installed_def)
  from f have "rmtree (fs w) ?t = (Inl OSError, fs w)" by (simp add: rmtree_file)
  with x show "uninstall e category_name tool_name u sender w = (Inl OSError, sender, w)"
    by (simp add: uninstall_def Let_def)
next
  let ?t = "get_target_folder e category_name tool_name"
  let ?b = "sender\<lparr>title := ''  Install  '', action := Install category_name tool_name u\<rparr>"
  assume a: "\<not> is_file (node_at (fs w) (components ?t)) \<and> components ?t \<noteq> []"
  then have nofile: "\<not> is_file (node_at (fs w) (components ?t))" and notroot: "components ?t \<noteq> []"
    by simp_all
  have again: "\<exists>sender'' w''.
       uninstall e category_name tool_name u b w1 = (Inr (), sender'', w'') \<and> fs w'' = fs w1 \<and>
       alerts w'' = alerts w1 @ [(tool_name @ '' uninstalled'', ''success'')]"
    if "\<not> path_exists (fs w1) ?t" for b w1
    using that by (simp add: uninstall_def Let_def)
  show "\<exists>sender' w'.
             uninstall e category_name tool_name u sender w = (Inr (), sender', w') \<and>
             alerts w' = alerts w @ [(tool_name @ '' uninstalled'', ''success'')] \<and>
             \<not> is_tool_installed e w' category_name tool_name \<and>
             (\<exists>sender'' w''.
                uninstall e category_name tool_name u sender' w' = (Inr (), sender'', w'') \<and>
                fs w'' = fs w' \<and>
                alerts w'' = alerts w' @ [(tool_name @ '' uninstalled'', ''success'')])"
  proof (cases "path_exists (fs w) ?t")
    case False
    let ?w = "w\<lparr>fs := fs w, alerts := alerts w @ [(tool_name @ '' uninstalled'', ''success'')]\<rparr>"
    from False have 1: "uninstall e category_name tool_name u sender w = (Inr (), ?b, ?w)"
      by (simp add: uninstall_def Let_def)
    from False have 2: "\<not> path_exists (fs ?w) ?t" by simp
    from 1 2 again [OF 2, of ?b] show ?thesis
      by (simp add: is_tool_installed_def)
  next
    case True
    let ?f = "\<lambda>q. if take (length (components ?t)) q = components ?t then None else fs w q"
    let ?w = "w\<lparr>fs := ?f, alerts := alerts w @ [(tool_name @ '' uninstalled'', ''success'')]\<rparr>"
    from exists_dir [OF True nofile] have "node_at (fs w) (components ?t) = Some Dir" .
    from rmtree_dir [OF this notroot] True
    have 1: "uninstall e category_name tool_name u sender w = (Inr (), ?b, ?w)"
      by (simp add: uninstall_def Let_def)
    from rmtree_gone [OF notroot, of "fs w"] have 2: "\<not> path_exists (fs ?w) ?t" by simp
    from 1 2 again [OF 2, of ?b] show ?thesis
      by (simp add: is_tool_installed_def)
  qed
qed

theorem uninstall_directory_or_absent_witness:
  "''.'' \<notin> set (components (get_target_folder (listing_env []) ''Games'' ''Foo'')) \<and>
   ''..'' \<notin> set (components (get_target_folder (listing_env []) ''Games'' ''Foo'')) \<and>
   \<not> is_file (node_at dir_at_target (components (get_target_folder (listing_env []) ''Games'' ''Foo''))) \<and>
   components (get_target_folder (listing_env []) ''Games'' ''Foo'') \<noteq> [] \<and>
   is_tool_installed (listing_env []) (world0\<lparr>fs := dir_at_target\<rparr>) ''Games'' ''Foo'' \<and>
   (\<exists>sender' w'.
      uninstall (listing_env []) ''Games'' ''Foo'' itunes_url install_button (world0\<lparr>fs := dir_at_target\<rparr>)
        = (Inr (), sender', w') \<and>
      \<not> is_tool_installed (listing_env []) w' ''Games'' ''Foo'') \<and>
   is_file (node_at file_at_target (components (get_target_folder (listing_env []) ''Games'' ''Foo''))) \<and>
   \<not> endswith_slash (get_target_folder (listing_env []) ''Games'' ''Foo'') \<and>
   uninstall (listing_env []) ''Games'' ''Foo'' itunes_url install_button (world0\<lparr>fs := file_at_target\<rparr>)
     = (Inl OSError, install_button, world0\<lparr>fs := file_at_target\<rparr>)"
proof -
  have c: "components (get_target_folder (listing_env []) ''Games'' ''Foo'')
             = [''home'', ''Documents'', ''bin'', ''Games'', ''Foo'']"
    by code_simp
  have p1: "''.'' \<notin> set (components (get_target_folder (listing_env []) ''Games'' ''Foo''))"
    and p2: "''..'' \<notin> set (components (get_target_folder (listing_env []) ''Games'' ''Foo''))"
    unfolding c by simp_all
  have a: "\<not> is_file (node_at (fs (world0\<lparr>fs := dir_at_target\<rparr>))
               (components (get_target_folder (listing_env []) ''Games'' ''Foo'')))"
    unfolding c by (simp add: dir_at_target_def node_at_def)
  have b: "components (get_target_folder (listing_env []) ''Games'' ''Foo'') \<noteq> []"
    unfolding c by simp
  have i: "is_tool_installed (listing_env []) (world0\<lparr>fs := dir_at_target\<rparr>) ''Games'' ''Foo''"
    by code_simp
  have f: "is_file (node_at (fs (world0\<lparr>fs := file_at_target\<rparr>))
               (components (get_target_folder (listing_env []) ''Games'' ''Foo'')))"
    unfolding c by (simp add: file_at_target_def node_at_def)
  have s: "\<not> endswith_slash (get_target_folder (listing_env []) ''Games'' ''Foo'')"
    by code_simp
  from uninstall_directory_or_absent [OF p1 p2, of "world0\<lparr>fs := dir_at_target\<rparr>" itunes_url install_button] a b
  have d: "\<exists>sender' w'.
      uninstall (listing_env []) ''Games'' ''Foo'' itunes_url install_button (world0\<lparr>fs := dir_at_target\<rparr>)
        = (Inr (), sender', w') \<and>
      \<not> is_tool_installed (listing_env []) w' ''Games'' ''Foo''"
    by blast
  from uninstall_directory_or_absent [OF p1 p2, of "world0\<lparr>fs := file_at_target\<rparr>" itunes_url install_button] f s
  have r: "uninstall (listing_env []) ''Games'' ''Foo'' itunes_url install_button (world0\<lparr>fs := file_at_target\<rparr>)
     = (Inl OSError, install_button, world0\<lparr>fs := file_at_target\<rparr>)"
    by blast
  from p1 p2 a b i d f s r show ?thesis by simp
qed

text \<open>
  C7 as stated fails: with a regular file at the target path the tool counts
  as installed, and \<^verbatim>\<open>shutil.rmtree\<close> raises \<^verbatim>\<open>OSError\<close>, which \<^verbatim>\<open>uninstall\<close> does
  not catch.
\<close>

theorem uninstall_raises_on_file:
  "is_tool_installed (listing_env []) (world0\<lparr>fs := file_at_target\<rparr>) ''Games'' ''Foo'' \<and>
   fst (uninstall (listing_env []) ''Games'' ''Foo'' itunes_url install_button (world0\<lparr>fs := file_at_target\<rparr>))
     = Inl OSError"
  by code_simp

end
